theory Spec2Isabelle
  imports Main "HOL-Library.Word"
begin

section \<open>The Hue entertainment streaming controller (HueDtlsController)\<close>

text \<open>
  A shallow embedding of the class \<open>HueDtlsController\<close>: the frame that
  \<open>sendUpdatePacket\<close> builds, the alternating skip flag of \<open>sendUpdate\<close>, the
  keepalive callback \<open>updateKeepalive\<close> and the life cycle (\<open>connect\<close>, the socket's
  events, \<open>close\<close>).

  JavaScript numbers are modelled as \<open>int\<close> (the integral values a light id or a colour
  channel can take); fractional values and NaN are outside the model. Times are
  milliseconds since the epoch, as \<open>Date.now()\<close> and \<open>Date.getTime()\<close> give them.
  A byte of a \<open>Buffer\<close> is an \<open>8 word\<close>, a \<open>Buffer\<close> is a list of bytes.
\<close>

subsection \<open>Data\<close>

type_synonym byte = "8 word"

text \<open>\<open>interface ColorUpdate { lightId: number; color: [number, number, number] }\<close>\<close>

record ColorUpdate =
  lightId :: int
  color :: "int \<times> int \<times> int"

text \<open>
  The errors that the \<open>Buffer\<close> write methods of Node.js raise: the value is not
  in the range of the field, or the field does not fit in the buffer at the offset.
  The third error is the one \<open>parse\<close> of \<open>ip6addr\<close> raises in \<open>connect\<close>.
\<close>

datatype error = ERR_OUT_OF_RANGE_value | ERR_OUT_OF_RANGE_offset | ERR_INVALID_ADDRESS

text \<open>Sequencing of fallible steps: the first error raised ends the computation.\<close>

definition and_then :: "error + 'a \<Rightarrow> ('a \<Rightarrow> error + 'b) \<Rightarrow> error + 'b" where
  "and_then r f = (case r of Inl e \<Rightarrow> Inl e | Inr x \<Rightarrow> f x)"

subsection \<open>The Buffer operations used by the encoder\<close>

text \<open>
  These are methods of the Node.js runtime, not of the repository. They are modelled
  as Node.js implements them: \<open>writeUInt8\<close> and \<open>writeUInt16BE\<close> first compare
  the value with the bounds of the field (\<open>value > max || value < min\<close> raises
  \<open>ERR_OUT_OF_RANGE\<close>), then check that the field lies inside the buffer, then store
  the bytes, the most significant byte first.
\<close>

definition Buffer_alloc :: "nat \<Rightarrow> byte \<Rightarrow> byte list" where
  "Buffer_alloc n fill = replicate n fill"

text \<open>\<open>source.copy(target, targetStart)\<close> copies as many bytes as fit into the target.\<close>

definition Buffer_copy :: "byte list \<Rightarrow> byte list \<Rightarrow> nat \<Rightarrow> byte list" where
  "Buffer_copy source target targetStart =
     (let n = min (length source) (length target - targetStart)
      in take targetStart target @ take n source @ drop (targetStart + n) target)"

definition writeUInt8 :: "int \<Rightarrow> nat \<Rightarrow> byte list \<Rightarrow> error + byte list" where
  "writeUInt8 v offset buf =
     (if v > 255 \<or> v < 0 then Inl ERR_OUT_OF_RANGE_value
      else if length buf < offset + 1 then Inl ERR_OUT_OF_RANGE_offset
      else Inr (buf[offset := word_of_int v]))"

definition writeUInt16BE :: "int \<Rightarrow> nat \<Rightarrow> byte list \<Rightarrow> error + byte list" where
  "writeUInt16BE v offset buf =
     (if v > 65535 \<or> v < 0 then Inl ERR_OUT_OF_RANGE_value
      else if length buf < offset + 2 then Inl ERR_OUT_OF_RANGE_offset
      else Inr (buf[offset := word_of_int (v div 256), offset + 1 := word_of_int v]))"

subsection \<open>The frame built by sendUpdatePacket\<close>

text \<open>\<open>const PACKET_HEADER = Buffer.from([0x48, 0x75, 0x65, 0x53, 0x74, 0x72, 0x65, 0x61, 0x6d])\<close>\<close>

definition PACKET_HEADER :: "byte list" where
  "PACKET_HEADER = [0x48, 0x75, 0x65, 0x53, 0x74, 0x72, 0x65, 0x61, 0x6d]"

text \<open>
  The body of \<open>updates.forEach\<close>: five writes at the running offset, which then
  advances by 9. The offset is the closure variable \<open>offset\<close> of the source.
\<close>

fun write_updates :: "ColorUpdate list \<Rightarrow> nat \<Rightarrow> byte list \<Rightarrow> error + byte list" where
  "write_updates [] offset message = Inr message"
| "write_updates (update # updates) offset message =
     and_then (writeUInt8 0 offset message) (\<lambda>m1.
     and_then (writeUInt16BE (lightId update) (offset + 1) m1) (\<lambda>m2.
     and_then (writeUInt16BE (fst (color update)) (offset + 3) m2) (\<lambda>m3.
     and_then (writeUInt16BE (fst (snd (color update))) (offset + 5) m3) (\<lambda>m4.
     and_then (writeUInt16BE (snd (snd (color update))) (offset + 7) m4) (\<lambda>m5.
     write_updates updates (offset + 9) m5)))))"

text \<open>
  The first half of \<open>sendUpdatePacket\<close>: the buffer is allocated, the header and the
  fixed fields are written, then the entries. The result is the local \<open>message\<close>.
\<close>

definition build_message :: "ColorUpdate list \<Rightarrow> error + byte list" where
  "build_message updates =
     (let message = Buffer_alloc (16 + length updates * 9) 0x00;
          message = Buffer_copy PACKET_HEADER message 0
      in and_then (writeUInt8 1 9 message) (\<lambda>message.
         and_then (writeUInt8 0 10 message) (\<lambda>message.
         and_then (writeUInt8 0 11 message) (\<lambda>message.
         and_then (writeUInt16BE 0 12 message) (\<lambda>message.
         and_then (writeUInt8 0 14 message) (\<lambda>message.
         and_then (writeUInt8 0 15 message) (\<lambda>message.
         write_updates updates 16 message)))))))"

subsection \<open>The controller's state\<close>

text \<open>
  The DTLS socket as the controller sees it: the datagrams handed to \<open>write\<close>, how
  often \<open>end\<close> was called, and whether the listener registered with
  \<open>once('connect', ...)\<close> is still waiting for its event.
\<close>

record dtls_socket =
  written :: "byte list list"
  end_calls :: nat
  once_connect :: bool

text \<open>
  A line of \<open>console.log\<close>: a frame (printed in hexadecimal by the source) or a text.
\<close>

datatype console_line = Frame "byte list" | Text string

text \<open>
  The fields of the class, and what its methods act on outside of it: the interval
  timers it has registered with the event loop (\<open>intervals\<close>; the source never calls
  \<open>clearInterval\<close>), the events it has emitted, the console, and the calls of
  \<open>close\<close> that are suspended at their \<open>await\<close> (\<open>pending_close\<close>).
\<close>

record controller =
  host :: string
  username :: string
  clientKey :: string
  socket :: "dtls_socket option"
  opened :: bool
  skip :: bool
  lastUpdate :: "ColorUpdate list option"
  lastUpdateTimestamp :: "int option"
  updateKeepaliveTimeout :: "nat option"
  intervals :: nat
  emitted :: "string list"
  console :: "console_line list"
  pending_close :: nat

text \<open>The constructor and the field initialisers.\<close>

definition new_controller :: "string \<Rightarrow> string \<Rightarrow> string \<Rightarrow> controller" where
  "new_controller h u k =
     \<lparr>host = h, username = u, clientKey = k, socket = None, opened = False, skip = False,
      lastUpdate = None, lastUpdateTimestamp = None, updateKeepaliveTimeout = None,
      intervals = 0, emitted = [], console = [], pending_close = 0\<rparr>"

subsection \<open>connect, the socket's events, close\<close>

text \<open>
  \<open>connect\<close>: \<open>parse(this.host)\<close> raises on a host that is no IP address (the
  parser belongs to a library and is a parameter here); then the socket is created with
  its listeners, the keepalive interval is registered and its handle stored, and the
  socket is stored.
\<close>

definition connect :: "(string \<Rightarrow> bool) \<Rightarrow> controller \<Rightarrow> controller \<times> error option" where
  "connect parse s =
     (if \<not> parse (host s) then (s, Some ERR_INVALID_ADDRESS)
      else (s\<lparr>updateKeepaliveTimeout := Some (intervals s),
              intervals := Suc (intervals s),
              socket := Some \<lparr>written = [], end_calls = 0, once_connect = True\<rparr>\<rparr>, None))"

text \<open>The listener of the socket's \<open>connect\<close> event, registered with \<open>once\<close>.\<close>

definition on_socket_connect :: "controller \<Rightarrow> controller" where
  "on_socket_connect s =
     (case socket s of
        None \<Rightarrow> s
      | Some sock \<Rightarrow>
          if once_connect sock
          then s\<lparr>socket := Some (sock\<lparr>once_connect := False\<rparr>),
                 opened := True, emitted := emitted s @ [''connected'']\<rparr>
          else s)"

text \<open>
  \<open>close\<close> up to its \<open>await\<close>: nothing when the controller is not opened; otherwise
  the flag is cleared and \<open>this.socket?.end(callback)\<close> is called. The call stays
  suspended until the callback runs (with no socket there is no callback and the
  call never resumes).
\<close>

definition close :: "controller \<Rightarrow> controller" where
  "close s =
     (if \<not> opened s then s
      else (case socket s of
              None \<Rightarrow> s\<lparr>opened := False\<rparr>
            | Some sock \<Rightarrow>
                s\<lparr>opened := False,
                  socket := Some (sock\<lparr>end_calls := Suc (end_calls sock)\<rparr>),
                  pending_close := Suc (pending_close s)\<rparr>))"

text \<open>
  The callback of \<open>end\<close> resolves the promise, and the suspended \<open>close\<close> resumes
  with \<open>this.emit('close')\<close>.
\<close>

definition close_resume :: "controller \<Rightarrow> controller" where
  "close_resume s =
     (if pending_close s = 0 then s
      else s\<lparr>pending_close := pending_close s - 1, emitted := emitted s @ [''close'']\<rparr>)"

text \<open>The listeners of the socket's \<open>close\<close> and \<open>error\<close> events.\<close>

definition on_socket_close :: "controller \<Rightarrow> controller" where
  "on_socket_close s = close s"

definition on_socket_error :: "controller \<Rightarrow> controller" where
  "on_socket_error s =
     close (s\<lparr>console := console s @ [Text ''UDP Stream interrupted, closing connection.'']\<rparr>)"

subsection \<open>sendUpdatePacket, sendUpdate, updateKeepalive\<close>

text \<open>\<open>this.socket?.write(message)\<close>\<close>

definition socket_write :: "byte list \<Rightarrow> controller \<Rightarrow> controller" where
  "socket_write message s =
     (case socket s of
        None \<Rightarrow> s
      | Some sock \<Rightarrow> s\<lparr>socket := Some (sock\<lparr>written := written sock @ [message]\<rparr>)\<rparr>)"

text \<open>
  \<open>sendUpdatePacket\<close>: the frame is built (a write that raises leaves the method
  there), printed, and written to the socket when the controller is opened.
\<close>

definition sendUpdatePacket :: "ColorUpdate list \<Rightarrow> controller \<Rightarrow> controller \<times> error option" where
  "sendUpdatePacket updates s =
     (case build_message updates of
        Inl e \<Rightarrow> (s, Some e)
      | Inr message \<Rightarrow>
          (let s1 = s\<lparr>console := console s @ [Frame message]\<rparr>
           in (if opened s1 then socket_write message s1 else s1, None)))"

text \<open>
  The skip flag of \<open>sendUpdate\<close>: a call that finds it set clears it and is dropped,
  a call that finds it clear sets it and goes on. The result says whether the call
  goes on to transmit.
\<close>

definition admit :: "controller \<Rightarrow> bool \<times> controller" where
  "admit s = (if skip s then (False, s\<lparr>skip := False\<rparr>) else (True, s\<lparr>skip := True\<rparr>))"

text \<open>
  \<open>sendUpdate\<close>, with the time \<open>new Date()\<close> reads. The fields are assigned before
  \<open>sendUpdatePacket\<close> runs, so they keep their new values when it raises.
\<close>

definition sendUpdate :: "ColorUpdate list \<Rightarrow> int \<Rightarrow> controller \<Rightarrow> controller \<times> error option" where
  "sendUpdate updates now s =
     (if socket s = None \<or> \<not> opened s then (s, None)
      else (case admit s of
              (False, s1) \<Rightarrow> (s1, None)
            | (True, s1) \<Rightarrow>
                sendUpdatePacket updates
                  (s1\<lparr>lastUpdate := Some updates, lastUpdateTimestamp := Some now\<rparr>)))"

text \<open>
  \<open>updateKeepalive\<close>, with the time \<open>Date.now()\<close> reads: nothing while the last
  update is at most 2000 ms old; otherwise the last update, if there is one, is sent
  again.
\<close>

definition updateKeepalive :: "int \<Rightarrow> controller \<Rightarrow> controller \<times> error option" where
  "updateKeepalive now s =
     (if (case lastUpdateTimestamp s of None \<Rightarrow> False | Some t \<Rightarrow> now - t \<le> 2000)
      then (s, None)
      else (case lastUpdate s of
              None \<Rightarrow> (s, None)
            | Some updates \<Rightarrow> sendUpdatePacket updates s))"

text \<open>
  A tick of the interval timer registered by \<open>connect\<close>: the event loop calls
  \<open>updateKeepalive\<close> as long as an interval is registered.
\<close>

definition timer_tick :: "int \<Rightarrow> controller \<Rightarrow> controller \<times> error option" where
  "timer_tick now s = (if intervals s = 0 then (s, None) else updateKeepalive now s)"

text \<open>
  Successive keepalive ticks at the given times, with nothing else in between. An
  error raised by a tick is not caught by anything and ends the run.
\<close>

fun keepalive_ticks :: "int list \<Rightarrow> controller \<Rightarrow> controller \<times> error option" where
  "keepalive_ticks [] s = (s, None)"
| "keepalive_ticks (now # nows) s =
     (case updateKeepalive now s of
        (s1, None) \<Rightarrow> keepalive_ticks nows s1
      | (s1, Some e) \<Rightarrow> (s1, Some e))"

text \<open>The decisions of \<open>K\<close> successive calls of the skip flag.\<close>

fun admits :: "nat \<Rightarrow> controller \<Rightarrow> bool list" where
  "admits 0 s = []"
| "admits (Suc K) s = fst (admit s) # admits K (snd (admit s))"

text \<open>
  Successive calls of \<open>sendUpdate\<close>, each with its batch and its time, and for each
  call whether it handed a datagram to the socket. A caller that catches an error of
  one call goes on with the state that call left.
\<close>

fun transmissions :: "(ColorUpdate list \<times> int) list \<Rightarrow> controller \<Rightarrow> bool list" where
  "transmissions [] s = []"
| "transmissions (call # calls) s =
     (let s1 = fst (sendUpdate (fst call) (snd call) s)
      in (socket s1 \<noteq> socket s) # transmissions calls s1)"

subsection \<open>Notions used to state the properties\<close>

text \<open>A value that fits an unsigned 16-bit field.\<close>

definition uint16 :: "int \<Rightarrow> bool" where
  "uint16 v = (0 \<le> v \<and> v \<le> 65535)"

definition valid_update :: "ColorUpdate \<Rightarrow> bool" where
  "valid_update u =
     (uint16 (lightId u) \<and> uint16 (fst (color u)) \<and> uint16 (fst (snd (color u)))
      \<and> uint16 (snd (snd (color u))))"

definition valid_batch :: "ColorUpdate list \<Rightarrow> bool" where
  "valid_batch us = list_all valid_update us"

text \<open>The two bytes of a 16-bit field, most significant first, and the 9 bytes of an entry.\<close>

definition be16 :: "int \<Rightarrow> byte list" where
  "be16 v = [word_of_int (v div 256), word_of_int v]"

definition entry_bytes :: "ColorUpdate \<Rightarrow> byte list" where
  "entry_bytes u =
     0 # be16 (lightId u) @ be16 (fst (color u)) @ be16 (fst (snd (color u)))
       @ be16 (snd (snd (color u)))"

text \<open>
  The 16 bytes of the header as the wire format lists them: the magic identifier,
  major version 1, minor version 0, sequence counter 0, two reserved bytes, colour
  space 0, one reserved byte.
\<close>

definition frame_header :: "byte list" where
  "frame_header = [0x48, 0x75, 0x65, 0x53, 0x74, 0x72, 0x65, 0x61, 0x6d, 1, 0, 0, 0, 0, 0, 0]"

text \<open>
  A decoder of the per-entry region, written from the wire format of the
  specification: 9 bytes per entry, the entry type, then the light id and the three
  channels as big-endian unsigned 16-bit numbers. It reads entries while 9 bytes are left.
\<close>

definition read_be16 :: "byte \<Rightarrow> byte \<Rightarrow> int" where
  "read_be16 hi lo = 256 * uint hi + uint lo"

fun decode_entries :: "byte list \<Rightarrow> (int \<times> int \<times> int \<times> int) list" where
  "decode_entries (t # i1 # i0 # r1 # r0 # g1 # g0 # b1 # b0 # rest) =
     (read_be16 i1 i0, read_be16 r1 r0, read_be16 g1 g0, read_be16 b1 b0) # decode_entries rest"
| "decode_entries rest = []"

definition tuple_of :: "ColorUpdate \<Rightarrow> int \<times> int \<times> int \<times> int" where
  "tuple_of u = (lightId u, fst (color u), fst (snd (color u)), snd (snd (color u)))"

text \<open>
  The \<open>n\<close> bytes at offset \<open>i\<close> of the frame of a batch (none when building the
  frame raises).
\<close>

definition frame_bytes :: "ColorUpdate list \<Rightarrow> nat \<Rightarrow> nat \<Rightarrow> byte list option" where
  "frame_bytes us i n =
     (case build_message us of Inl e \<Rightarrow> None | Inr m \<Rightarrow> Some (take n (drop i m)))"

subsection \<open>A concrete session\<close>

text \<open>
  A controller that connects to a bridge, sees the socket's \<open>connect\<close> event, sends
  one update for light 1 (green at full scale) at time 1000, and is then closed.
\<close>

definition scenario_light :: ColorUpdate where
  "scenario_light = \<lparr>lightId = 1, color = (0, 65535, 0)\<rparr>"

definition scenario_frame :: "byte list" where
  "scenario_frame = [0x48, 0x75, 0x65, 0x53, 0x74, 0x72, 0x65, 0x61, 0x6d, 1, 0, 0, 0, 0, 0, 0,
                     0, 0, 1, 0, 0, 255, 255, 0, 0]"

definition scenario_new :: controller where
  "scenario_new = new_controller ''192.168.1.10'' ''user'' ''00112233445566778899aabbccddeeff''"

definition scenario_connected :: controller where
  "scenario_connected = on_socket_connect (fst (connect (\<lambda>h. True) scenario_new))"

definition scenario_sent :: controller where
  "scenario_sent = fst (sendUpdate [scenario_light] 1000 scenario_connected)"

definition scenario_closed :: controller where
  "scenario_closed = close_resume (close scenario_sent)"

section \<open>The frame\<close>

subsection \<open>Writing one entry and a whole batch\<close>

lemma and_then_Inr [simp]: "and_then (Inr x) f = f x"
  by (simp add: and_then_def)

lemma and_then_Inl [simp]: "and_then (Inl e) f = Inl e"
  by (simp add: and_then_def)

text \<open>Nine successive list updates overwrite the nine bytes at the offset.\<close>

lemma update9_aux:
  assumes "off + 9 \<le> length buf"
  shows "buf[off := a0, off + 1 := a1, off + 2 := a2, off + 3 := a3, off + 4 := a4,
             off + 5 := a5, off + 6 := a6, off + 7 := a7, off + 8 := a8]
         = take off buf @ [a0, a1, a2, a3, a4, a5, a6, a7, a8] @ drop (off + 9) buf"
    (is "?l = ?r")
proof (rule nth_equalityI)
  show "length ?l = length ?r"
    using assms by simp
next
  fix i
  assume "i < length ?l"
  then have i: "i < length buf" by simp
  consider "i < off" | "i = off" | "i = off + 1" | "i = off + 2" | "i = off + 3"
    | "i = off + 4" | "i = off + 5" | "i = off + 6" | "i = off + 7" | "i = off + 8"
    | "off + 9 \<le> i" by linarith
  then show "?l ! i = ?r ! i"
  proof cases
    case 11
    then obtain k where k: "i = off + 9 + k" using le_Suc_ex by blast
    show ?thesis using assms i unfolding k
      by (simp add: nth_append)
  qed (use assms i in \<open>simp_all add: nth_append\<close>)
qed

lemma update9:
  assumes "off + 9 \<le> length buf"
  shows "buf[off := a0, off + 1 := a1, off + 1 + 1 := a2, off + 3 := a3, off + 3 + 1 := a4,
             off + 5 := a5, off + 5 + 1 := a6, off + 7 := a7, off + 7 + 1 := a8]
         = take off buf @ [a0, a1, a2, a3, a4, a5, a6, a7, a8] @ drop (off + 9) buf"
proof -
  have *: "off + 1 + 1 = off + 2" "off + 3 + 1 = off + 4" "off + 5 + 1 = off + 6"
    "off + 7 + 1 = off + 8" by simp_all
  show ?thesis unfolding * by (rule update9_aux [OF assms])
qed

lemma drop_past:
  "length xs = a \<Longrightarrow> length ys = b \<Longrightarrow>
   drop (a + b + m) (xs @ ys @ drop (a + b) buf) = drop (a + b + m) (buf :: 'a list)"
  by (simp add: ac_simps)

lemma length_entry_bytes: "length (entry_bytes u) = 9"
  by (simp add: entry_bytes_def be16_def)

lemma length_concat_entries: "length (concat (map entry_bytes us)) = 9 * length us"
  by (induction us) (simp_all add: length_entry_bytes)

text \<open>The five writes of one pass of the loop, for an entry whose values are in range.\<close>

lemma write_entry:
  assumes "valid_update u" and "off + 9 \<le> length buf"
  shows "and_then (writeUInt8 0 off buf) (\<lambda>m1.
     and_then (writeUInt16BE (lightId u) (off + 1) m1) (\<lambda>m2.
     and_then (writeUInt16BE (fst (color u)) (off + 3) m2) (\<lambda>m3.
     and_then (writeUInt16BE (fst (snd (color u))) (off + 5) m3) (\<lambda>m4.
     and_then (writeUInt16BE (snd (snd (color u))) (off + 7) m4) (\<lambda>m5. f m5)))))
    = f (take off buf @ entry_bytes u @ drop (off + 9) buf)"
  using assms
    update9 [OF assms(2), of 0 "word_of_int (lightId u div 256)" "word_of_int (lightId u)"
      "word_of_int (fst (color u) div 256)" "word_of_int (fst (color u))"
      "word_of_int (fst (snd (color u)) div 256)" "word_of_int (fst (snd (color u)))"
      "word_of_int (snd (snd (color u)) div 256)" "word_of_int (snd (snd (color u)))"]
  by (simp add: writeUInt8_def writeUInt16BE_def valid_update_def uint16_def
        entry_bytes_def be16_def)

lemma write_updates_valid:
  "valid_batch us \<Longrightarrow> off + 9 * length us \<le> length buf \<Longrightarrow>
   write_updates us off buf
     = Inr (take off buf @ concat (map entry_bytes us) @ drop (off + 9 * length us) buf)"
proof (induction us arbitrary: off buf)
  case Nil
  then show ?case by simp
next
  case (Cons u us)
  let ?buf' = "take off buf @ entry_bytes u @ drop (off + 9) buf"
  from Cons.prems have u: "valid_update u" and us: "valid_batch us"
    and len: "off + 9 \<le> length buf" "off + 9 + 9 * length us \<le> length buf"
    by (simp_all add: valid_batch_def)
  note e = length_entry_bytes [of u]
  have len': "off + 9 + 9 * length us \<le> length ?buf'" using len e by simp
  have "write_updates (u # us) off buf = write_updates us (off + 9) ?buf'"
    using write_entry [OF u len(1), of "write_updates us (off + 9)"] by simp
  also have "\<dots> = Inr (take (off + 9) ?buf' @ concat (map entry_bytes us)
                        @ drop (off + 9 + 9 * length us) ?buf')"
    by (rule Cons.IH [OF us len'])
  also have "take (off + 9) ?buf' = take off buf @ entry_bytes u"
    using len e by simp
  also have "drop (off + 9 + 9 * length us) ?buf' = drop (off + 9 + 9 * length us) buf"
    using len e by (intro drop_past) simp_all
  also have "off + 9 + 9 * length us = off + 9 * length (u # us)"
    by simp
  finally show ?case by simp
qed

text \<open>The first value out of range raises, whatever was written before it.\<close>

lemma write_updates_invalid:
  "\<not> valid_batch us \<Longrightarrow> off + 9 * length us \<le> length buf \<Longrightarrow>
   write_updates us off buf = Inl ERR_OUT_OF_RANGE_value"
proof (induction us arbitrary: off buf)
  case Nil
  then show ?case by (simp add: valid_batch_def)
next
  case (Cons u us)
  from Cons.prems have len: "off + 9 \<le> length buf" by simp
  show ?case
  proof (cases "valid_update u")
    case True
    let ?buf' = "take off buf @ entry_bytes u @ drop (off + 9) buf"
    note e = length_entry_bytes [of u]
    from True Cons.prems have us: "\<not> valid_batch us" by (simp add: valid_batch_def)
    have len': "off + 9 + 9 * length us \<le> length ?buf'" using Cons.prems e by simp
    have "write_updates (u # us) off buf = write_updates us (off + 9) ?buf'"
      using write_entry [OF True len, of "write_updates us (off + 9)"] by simp
    then show ?thesis using Cons.IH [OF us len'] by simp
  next
    case False
    then show ?thesis using len
      by (auto simp: writeUInt8_def writeUInt16BE_def valid_update_def uint16_def)
  qed
qed

subsection \<open>The header and the whole frame\<close>

lemma header_message:
  "and_then (writeUInt8 1 9 (Buffer_copy PACKET_HEADER (Buffer_alloc (16 + n * 9) 0x00) 0)) (\<lambda>message.
         and_then (writeUInt8 0 10 message) (\<lambda>message.
         and_then (writeUInt8 0 11 message) (\<lambda>message.
         and_then (writeUInt16BE 0 12 message) (\<lambda>message.
         and_then (writeUInt8 0 14 message) (\<lambda>message.
         and_then (writeUInt8 0 15 message) (\<lambda>message. f message))))))
   = f (frame_header @ replicate (9 * n) 0)"
proof -
  have r: "replicate (16 + n * 9) (0::byte) = replicate 16 0 @ replicate (9 * n) 0"
    by (simp add: replicate_add mult.commute)
  have r16: "replicate 16 (0::byte) = [0,0,0,0,0,0,0,0,0,0,0,0,0,0,0,0]"
    by code_simp
  show ?thesis
    unfolding Buffer_alloc_def r r16
    by (simp add: Buffer_copy_def PACKET_HEADER_def frame_header_def writeUInt8_def
          writeUInt16BE_def)
qed

text \<open>
  The frame in closed form: the header followed by the entries in the order of the
  batch, or the range error of the first value that does not fit its field.
\<close>

lemma build_message_eq:
  "build_message us =
     (if valid_batch us then Inr (frame_header @ concat (map entry_bytes us))
      else Inl ERR_OUT_OF_RANGE_value)"
proof -
  let ?m = "frame_header @ replicate (9 * length us) (0::byte)"
  have h: "length frame_header = 16" by (simp add: frame_header_def)
  have b: "build_message us = write_updates us 16 ?m"
    unfolding build_message_def Let_def by (rule header_message)
  have len: "16 + 9 * length us \<le> length ?m" using h by simp
  show ?thesis
  proof (cases "valid_batch us")
    case True
    then show ?thesis
      using write_updates_valid [OF True len] h by (simp add: b)
  next
    case False
    then show ?thesis
      using write_updates_invalid [OF False len] by (simp add: b)
  qed
qed

subsection \<open>Reading the entries back\<close>

lemma read_be16_be16:
  assumes "uint16 v"
  shows "read_be16 (word_of_int (v div 256)) (word_of_int v) = v"
proof -
  from assms have "0 \<le> v" "v < 65536" by (simp_all add: uint16_def)
  then have "0 \<le> v div 256" "v div 256 < 256" by simp_all
  then have "(v div 256) mod 256 = v div 256" by simp
  then show ?thesis
    by (simp add: read_be16_def uint_word_of_int)
qed

lemma decode_entry:
  "valid_update u \<Longrightarrow> decode_entries (entry_bytes u @ rest) = tuple_of u # decode_entries rest"
  by (simp add: entry_bytes_def be16_def valid_update_def read_be16_be16 tuple_of_def)

lemma decode_entries_concat:
  "valid_batch us \<Longrightarrow> decode_entries (concat (map entry_bytes us)) = map tuple_of us"
  by (induction us) (simp_all add: valid_batch_def decode_entry)

subsection \<open>The claims about the frame\<close>

text \<open>
  C3. A batch of \<open>N\<close> entries whose values are unsigned 16-bit numbers has a frame, and
  every frame that is built has length \<open>16 + 9 * N\<close> and starts with the same 16
  bytes: the 9 bytes of the magic identifier at offset 0, major version 1 at offset 9,
  minor version 0 at offset 10, sequence counter 0 at offset 11, two reserved zero
  bytes at offsets 12 and 13, colour space 0 at offset 14 and a reserved zero byte at
  offset 15.
\<close>

theorem frame_shape:
  "(valid_batch us \<longrightarrow> (\<exists>m. build_message us = Inr m)) \<and>
   (\<forall>m. build_message us = Inr m \<longrightarrow>
      length m = 16 + 9 * length us \<and> take 16 m = frame_header \<and>
      take 9 m = PACKET_HEADER \<and> m ! 9 = 1 \<and> m ! 10 = 0 \<and> m ! 11 = 0 \<and>
      m ! 12 = 0 \<and> m ! 13 = 0 \<and> m ! 14 = 0 \<and> m ! 15 = 0)"
proof (intro conjI allI impI)
  assume "valid_batch us"
  then show "\<exists>m. build_message us = Inr m" by (simp add: build_message_eq)
next
  fix m
  assume "build_message us = Inr m"
  then have m: "m = frame_header @ concat (map entry_bytes us)"
    by (simp add: build_message_eq split: if_splits)
  show "length m = 16 + 9 * length us"
    by (simp add: m length_concat_entries frame_header_def)
  show "take 16 m = frame_header" by (simp add: m frame_header_def)
  show "take 9 m = PACKET_HEADER" by (simp add: m frame_header_def PACKET_HEADER_def)
  show "m ! 9 = 1" "m ! 10 = 0" "m ! 11 = 0" "m ! 12 = 0" "m ! 13 = 0" "m ! 14 = 0"
    "m ! 15 = 0"
    by (simp_all add: m frame_header_def)
qed

theorem frame_shape_witness:
  "valid_batch [\<lparr>lightId = 1, color = (0, 65535, 0)\<rparr>] \<and>
   (\<exists>m. build_message [\<lparr>lightId = 1, color = (0, 65535, 0)\<rparr>] = Inr m \<and> length m = 25
      \<and> take 16 m = frame_header)"
proof -
  have v: "valid_batch [\<lparr>lightId = 1, color = (0, 65535, 0)\<rparr>]"
    by (simp add: valid_batch_def valid_update_def uint16_def)
  with frame_shape [of "[\<lparr>lightId = 1, color = (0, 65535, 0)\<rparr>]"] show ?thesis
    by auto
qed

text \<open>
  C4. For a batch whose light ids and colour components are in the range 0 to 65535,
  decoding the per-entry region of the frame (everything after the 16 bytes of the
  header, 9 bytes per entry) gives back the tuples (light id, R, G, B) of the batch,
  all of them and in the order of the batch.
\<close>

theorem frame_round_trip:
  "valid_batch us \<Longrightarrow>
   \<exists>m. build_message us = Inr m \<and> decode_entries (drop 16 m) = map tuple_of us"
  by (simp add: build_message_eq frame_header_def decode_entries_concat)

theorem frame_round_trip_witness:
  "valid_batch [\<lparr>lightId = 7, color = (1, 2, 3)\<rparr>, \<lparr>lightId = 300, color = (65535, 0, 256)\<rparr>] \<and>
   (\<exists>m. build_message [\<lparr>lightId = 7, color = (1, 2, 3)\<rparr>, \<lparr>lightId = 300, color = (65535, 0, 256)\<rparr>] = Inr m
      \<and> decode_entries (drop 16 m) = [(7, 1, 2, 3), (300, 65535, 0, 256)])"
proof -
  have v: "valid_batch [\<lparr>lightId = 7, color = (1, 2, 3)\<rparr>, \<lparr>lightId = 300, color = (65535, 0, 256)\<rparr>]"
    by (simp add: valid_batch_def valid_update_def uint16_def)
  show ?thesis
    using v frame_round_trip [OF v] by (simp add: tuple_of_def)
qed

text \<open>
  C9, as the specification states it, fails: a light id of 65536 is not written modulo
  \<open>2^16\<close>; the write raises the range error and no frame is built.
\<close>

theorem encode_out_of_range_counterexample:
  "build_message [\<lparr>lightId = 65536, color = (0, 0, 0)\<rparr>] = Inl ERR_OUT_OF_RANGE_value"
  by (simp add: build_message_eq valid_batch_def valid_update_def uint16_def)

text \<open>
  C9, amended. Building the frame succeeds exactly on the batches whose light ids and
  colour components are all in the range 0 to 65535, and then gives the header
  followed by the entries; on every other batch it raises the range error of the
  buffer's write method, and nothing is written modulo \<open>2^16\<close>.
\<close>

theorem encode_succeeds_iff_in_range:
  "(valid_batch us \<longrightarrow> build_message us = Inr (frame_header @ concat (map entry_bytes us))) \<and>
   (\<not> valid_batch us \<longrightarrow> build_message us = Inl ERR_OUT_OF_RANGE_value)"
  by (simp add: build_message_eq)

theorem encode_succeeds_iff_in_range_witness:
  "valid_batch [\<lparr>lightId = 1, color = (0, 65535, 0)\<rparr>] \<and>
   build_message [\<lparr>lightId = 1, color = (0, 65535, 0)\<rparr>]
     = Inr [0x48, 0x75, 0x65, 0x53, 0x74, 0x72, 0x65, 0x61, 0x6d, 1, 0, 0, 0, 0, 0, 0,
            0, 0, 1, 0, 0, 255, 255, 0, 0] \<and>
   \<not> valid_batch [\<lparr>lightId = 1, color = (0, 65535, -1)\<rparr>] \<and>
   build_message [\<lparr>lightId = 1, color = (0, 65535, -1)\<rparr>] = Inl ERR_OUT_OF_RANGE_value"
proof -
  have v: "valid_batch [\<lparr>lightId = 1, color = (0, 65535, 0)\<rparr>]"
    and n: "\<not> valid_batch [\<lparr>lightId = 1, color = (0, 65535, -1)\<rparr>]"
    by (simp_all add: valid_batch_def valid_update_def uint16_def)
  show ?thesis
    using v n encode_succeeds_iff_in_range [of "[\<lparr>lightId = 1, color = (0, 65535, 0)\<rparr>]"]
      encode_succeeds_iff_in_range [of "[\<lparr>lightId = 1, color = (0, 65535, -1)\<rparr>]"]
    by (simp add: frame_header_def entry_bytes_def be16_def)
qed

text \<open>
  C10, as the specification states it, fails: in the frame of three lights whose
  first light has id 258 (bytes 1 and 2 in big-endian order), bytes 16 and 17 are 0
  and 1: byte 16 is the entry type, and the light id starts at byte 17.
\<close>

theorem three_lights_bytes_16_17_counterexample:
  "frame_bytes [\<lparr>lightId = 258, color = (1, 2, 772)\<rparr>, \<lparr>lightId = 2, color = (0, 0, 0)\<rparr>,
      \<lparr>lightId = 3, color = (9, 9, 9)\<rparr>] 16 2 = Some [0, 1] \<and>
   be16 (lightId \<lparr>lightId = 258, color = (1, 2, 772)\<rparr>) = [1, 2]"
  by (simp add: frame_bytes_def build_message_eq valid_batch_def valid_update_def uint16_def
      frame_header_def entry_bytes_def be16_def)

text \<open>
  C10, amended. A batch of exactly three lights (values in range) has a frame of 43
  bytes; byte 16 is the entry type 0, bytes 17 and 18 are the first light's id in
  big-endian order, and bytes 23 and 24 are the first light's B channel in big-endian
  order.
\<close>

theorem three_lights_frame:
  "valid_batch [a, b, c] \<Longrightarrow>
   (\<exists>m. build_message [a, b, c] = Inr m \<and> length m = 43) \<and>
   frame_bytes [a, b, c] 16 1 = Some [0] \<and>
   frame_bytes [a, b, c] 17 2 = Some (be16 (lightId a)) \<and>
   frame_bytes [a, b, c] 23 2 = Some (be16 (snd (snd (color a))))"
  by (simp add: frame_bytes_def build_message_eq frame_header_def entry_bytes_def be16_def)

theorem three_lights_frame_witness:
  "valid_batch [\<lparr>lightId = 258, color = (1, 2, 772)\<rparr>, \<lparr>lightId = 2, color = (0, 0, 0)\<rparr>,
      \<lparr>lightId = 3, color = (9, 9, 9)\<rparr>] \<and>
   frame_bytes [\<lparr>lightId = 258, color = (1, 2, 772)\<rparr>, \<lparr>lightId = 2, color = (0, 0, 0)\<rparr>,
      \<lparr>lightId = 3, color = (9, 9, 9)\<rparr>] 17 2 = Some [1, 2] \<and>
   frame_bytes [\<lparr>lightId = 258, color = (1, 2, 772)\<rparr>, \<lparr>lightId = 2, color = (0, 0, 0)\<rparr>,
      \<lparr>lightId = 3, color = (9, 9, 9)\<rparr>] 23 2 = Some [3, 4]"
proof -
  have v: "valid_batch [\<lparr>lightId = 258, color = (1, 2, 772)\<rparr>, \<lparr>lightId = 2, color = (0, 0, 0)\<rparr>,
      \<lparr>lightId = 3, color = (9, 9, 9)\<rparr>]"
    by (simp add: valid_batch_def valid_update_def uint16_def)
  show ?thesis
    using v three_lights_frame [OF v] by (simp add: be16_def)
qed

section \<open>The controller\<close>

subsection \<open>The concrete session, evaluated\<close>

lemma scenario_light_valid: "valid_batch [scenario_light]"
  by (simp add: valid_batch_def valid_update_def uint16_def scenario_light_def)

lemma scenario_frame_eq: "build_message [scenario_light] = Inr scenario_frame"
  by (simp add: build_message_eq scenario_light_valid)
     (simp add: scenario_light_def scenario_frame_def frame_header_def entry_bytes_def be16_def)

lemma scenario_connected_eq:
  "scenario_connected =
     \<lparr>host = ''192.168.1.10'', username = ''user'',
      clientKey = ''00112233445566778899aabbccddeeff'',
      socket = Some \<lparr>written = [], end_calls = 0, once_connect = False\<rparr>,
      opened = True, skip = False, lastUpdate = None, lastUpdateTimestamp = None,
      updateKeepaliveTimeout = Some 0, intervals = 1, emitted = [''connected''],
      console = [], pending_close = 0\<rparr>"
  by (simp add: scenario_connected_def scenario_new_def new_controller_def connect_def
      on_socket_connect_def)

lemma scenario_sent_eq:
  "scenario_sent =
     \<lparr>host = ''192.168.1.10'', username = ''user'',
      clientKey = ''00112233445566778899aabbccddeeff'',
      socket = Some \<lparr>written = [scenario_frame], end_calls = 0, once_connect = False\<rparr>,
      opened = True, skip = True, lastUpdate = Some [scenario_light],
      lastUpdateTimestamp = Some 1000,
      updateKeepaliveTimeout = Some 0, intervals = 1, emitted = [''connected''],
      console = [Frame scenario_frame], pending_close = 0\<rparr>"
  by (simp add: scenario_sent_def scenario_connected_eq sendUpdate_def admit_def
      sendUpdatePacket_def scenario_frame_eq socket_write_def)

lemma scenario_closed_eq:
  "scenario_closed =
     \<lparr>host = ''192.168.1.10'', username = ''user'',
      clientKey = ''00112233445566778899aabbccddeeff'',
      socket = Some \<lparr>written = [scenario_frame], end_calls = 1, once_connect = False\<rparr>,
      opened = False, skip = True, lastUpdate = Some [scenario_light],
      lastUpdateTimestamp = Some 1000,
      updateKeepaliveTimeout = Some 0, intervals = 1, emitted = [''connected'', ''close''],
      console = [Frame scenario_frame], pending_close = 0\<rparr>"
  by (simp add: scenario_closed_def scenario_sent_eq close_def close_resume_def)

subsection \<open>One call of each method\<close>

text \<open>\<open>sendUpdate\<close> as the source writes it, with the flag tested and assigned in place.\<close>

lemma sendUpdate_unfolded:
  "sendUpdate updates now s =
     (if socket s = None \<or> \<not> opened s then (s, None)
      else if skip s then (s\<lparr>skip := False\<rparr>, None)
      else sendUpdatePacket updates
             (s\<lparr>skip := True, lastUpdate := Some updates, lastUpdateTimestamp := Some now\<rparr>))"
  by (simp add: sendUpdate_def admit_def)

lemma sendUpdate_suppressed:
  "socket s \<noteq> None \<Longrightarrow> opened s \<Longrightarrow> skip s \<Longrightarrow>
   sendUpdate updates now s = (s\<lparr>skip := False\<rparr>, None)"
  by (auto simp: sendUpdate_def admit_def)

lemma sendUpdate_admitted:
  "socket s = Some sock \<Longrightarrow> opened s \<Longrightarrow> \<not> skip s \<Longrightarrow> build_message updates = Inr m \<Longrightarrow>
   sendUpdate updates now s =
     (s\<lparr>skip := True, lastUpdate := Some updates, lastUpdateTimestamp := Some now,
        console := console s @ [Frame m],
        socket := Some (sock\<lparr>written := written sock @ [m]\<rparr>)\<rparr>, None)"
  by (simp add: sendUpdate_def admit_def sendUpdatePacket_def socket_write_def)

lemma written_grows: "sock\<lparr>written := written sock @ [m]\<rparr> \<noteq> sock"
proof
  assume "sock\<lparr>written := written sock @ [m]\<rparr> = sock"
  then have "written (sock\<lparr>written := written sock @ [m]\<rparr>) = written sock" by simp
  then show False by simp
qed

lemma sendUpdatePacket_closed:
  "\<not> opened s \<Longrightarrow> socket (fst (sendUpdatePacket us s)) = socket s"
  by (simp add: sendUpdatePacket_def Let_def split: sum.splits)

lemma sendUpdatePacket_no_socket:
  "socket s = None \<Longrightarrow> socket (fst (sendUpdatePacket us s)) = None"
  by (simp add: sendUpdatePacket_def socket_write_def Let_def split: sum.splits)

lemma sendUpdatePacket_frame:
  "lastUpdate (fst (sendUpdatePacket us s)) = lastUpdate s"
  "lastUpdateTimestamp (fst (sendUpdatePacket us s)) = lastUpdateTimestamp s"
  "skip (fst (sendUpdatePacket us s)) = skip s"
  by (simp_all add: sendUpdatePacket_def socket_write_def Let_def split: sum.splits option.splits)

lemma updateKeepalive_frame:
  "lastUpdate (fst (updateKeepalive now s)) = lastUpdate s"
  "lastUpdateTimestamp (fst (updateKeepalive now s)) = lastUpdateTimestamp s"
  "skip (fst (updateKeepalive now s)) = skip s"
  by (simp_all add: updateKeepalive_def sendUpdatePacket_frame split: option.splits)

lemma updateKeepalive_closed:
  "\<not> opened s \<Longrightarrow> socket (fst (updateKeepalive now s)) = socket s"
  by (simp add: updateKeepalive_def sendUpdatePacket_closed split: option.splits)

lemma keepalive_fresh:
  "lastUpdateTimestamp s = Some T \<Longrightarrow> now - T \<le> 2000 \<Longrightarrow> updateKeepalive now s = (s, None)"
  by (simp add: updateKeepalive_def)

lemma keepalive_stale:
  "opened s \<Longrightarrow> socket s = Some sock \<Longrightarrow> lastUpdate s = Some b \<Longrightarrow>
   lastUpdateTimestamp s = Some T \<Longrightarrow> build_message b = Inr m \<Longrightarrow> 2000 < now - T \<Longrightarrow>
   updateKeepalive now s =
     (s\<lparr>console := console s @ [Frame m],
        socket := Some (sock\<lparr>written := written sock @ [m]\<rparr>)\<rparr>, None)"
  by (simp add: updateKeepalive_def sendUpdatePacket_def socket_write_def)

lemma keepalive_absent: "lastUpdate s = None \<Longrightarrow> updateKeepalive now s = (s, None)"
  by (simp add: updateKeepalive_def)

lemma close_not_opened: "\<not> opened (close s)"
  by (simp add: close_def split: option.splits)

lemma close_resume_fields:
  "opened (close_resume s) = opened s" "socket (close_resume s) = socket s"
  "intervals (close_resume s) = intervals s"
  "updateKeepaliveTimeout (close_resume s) = updateKeepaliveTimeout s"
  by (simp_all add: close_resume_def)

subsection \<open>Runs of ticks and of calls\<close>

text \<open>
  As long as nothing but ticks happens, each tick later than 2000 ms after the last
  update adds one copy of its frame to what the socket was given; the others add nothing.
\<close>

lemma keepalive_ticks_run:
  "opened s \<Longrightarrow> socket s = Some sock \<Longrightarrow> lastUpdate s = Some b \<Longrightarrow>
   lastUpdateTimestamp s = Some T \<Longrightarrow> build_message b = Inr m \<Longrightarrow>
   keepalive_ticks nows s =
     (s\<lparr>console := console s @ replicate (length (filter (\<lambda>now. 2000 < now - T) nows)) (Frame m),
        socket := Some (sock\<lparr>written :=
          written sock @ replicate (length (filter (\<lambda>now. 2000 < now - T) nows)) m\<rparr>)\<rparr>, None)"
proof (induction nows arbitrary: s sock)
  case Nil
  then show ?case by simp
next
  case (Cons now nows)
  show ?case
  proof (cases "2000 < now - T")
    case False
    then have "updateKeepalive now s = (s, None)"
      using Cons.prems by (simp add: keepalive_fresh)
    then show ?thesis using False Cons.IH [OF Cons.prems] by simp
  next
    case True
    let ?sock = "sock\<lparr>written := written sock @ [m]\<rparr>"
    let ?s = "s\<lparr>console := console s @ [Frame m], socket := Some ?sock\<rparr>"
    have step: "updateKeepalive now s = (?s, None)"
      using Cons.prems True by (rule keepalive_stale)
    have "keepalive_ticks nows ?s =
       (?s\<lparr>console := console ?s @ replicate (length (filter (\<lambda>now. 2000 < now - T) nows)) (Frame m),
        socket := Some (?sock\<lparr>written :=
          written ?sock @ replicate (length (filter (\<lambda>now. 2000 < now - T) nows)) m\<rparr>)\<rparr>, None)"
      using Cons.prems by (intro Cons.IH) simp_all
    then show ?thesis using True step by (simp add: replicate_app_Cons_same)
  qed
qed

lemma upt_Suc_shift: "map f [0..<Suc n] = f 0 # map (\<lambda>i. f (Suc i)) [0..<n]"
proof -
  have "[0..<Suc n] = 0 # map Suc [0..<n]"
    by (simp add: upt_conv_Cons map_Suc_upt del: upt_Suc)
  then show ?thesis by (simp add: comp_def del: upt_Suc)
qed

text \<open>The decision of the \<open>i\<close>-th call depends on the parity of \<open>i\<close> and on the flag at the start.\<close>

lemma admits_general: "admits K s = map (\<lambda>i. even i = (\<not> skip s)) [0..<K]"
proof (induction K arbitrary: s)
  case 0
  then show ?case by simp
next
  case (Suc K)
  show ?case
    by (simp add: Suc.IH admit_def upt_Suc_shift del: upt_Suc)
qed

lemma count_even_upt: "length (filter (\<lambda>b. b) (map even [0..<K])) = (K + 1) div 2"
proof -
  have "length (filter even [0..<K]) = (K + 1) div 2"
    by (induction K) auto
  then show ?thesis by (simp add: filter_map comp_def)
qed

lemma transmissions_general:
  "opened s \<Longrightarrow> socket s \<noteq> None \<Longrightarrow> list_all (\<lambda>call. valid_batch (fst call)) calls \<Longrightarrow>
   transmissions calls s = map (\<lambda>i. even i = (\<not> skip s)) [0..<length calls]"
proof (induction calls arbitrary: s)
  case Nil
  then show ?case by simp
next
  case (Cons call calls)
  from Cons.prems obtain sock where sock: "socket s = Some sock" by auto
  from Cons.prems have v: "valid_batch (fst call)"
    and vs: "list_all (\<lambda>call. valid_batch (fst call)) calls" by simp_all
  show ?case
  proof (cases "skip s")
    case True
    let ?s1 = "s\<lparr>skip := False\<rparr>"
    have step: "sendUpdate (fst call) (snd call) s = (?s1, None)"
      using Cons.prems True by (simp add: sendUpdate_suppressed)
    have "transmissions calls ?s1 = map (\<lambda>i. even i = (\<not> skip ?s1)) [0..<length calls]"
      using Cons.prems vs by (intro Cons.IH) simp_all
    then show ?thesis
      using True step by (simp add: upt_Suc_shift del: upt_Suc)
  next
    case False
    let ?m = "frame_header @ concat (map entry_bytes (fst call))"
    let ?s1 = "s\<lparr>skip := True, lastUpdate := Some (fst call),
        lastUpdateTimestamp := Some (snd call), console := console s @ [Frame ?m],
        socket := Some (sock\<lparr>written := written sock @ [?m]\<rparr>)\<rparr>"
    have m: "build_message (fst call) = Inr ?m" using v by (simp add: build_message_eq)
    have step: "sendUpdate (fst call) (snd call) s = (?s1, None)"
      using sock Cons.prems(1) False m by (rule sendUpdate_admitted)
    have "transmissions calls ?s1 = map (\<lambda>i. even i = (\<not> skip ?s1)) [0..<length calls]"
      using Cons.prems vs by (intro Cons.IH) simp_all
    then show ?thesis
      using False step sock written_grows [of sock ?m]
      by (simp add: upt_Suc_shift del: upt_Suc)
  qed
qed

subsection \<open>The claims about the controller\<close>

text \<open>
  C1, as the specification states it, fails at the boundary: with the last update
  recorded at time 1000 on an open session, the tick at time 3000, which is at
  \<open>T + 2 s\<close>, transmits nothing and leaves the controller as it was.
\<close>

theorem keepalive_at_two_seconds_counterexample:
  "lastUpdateTimestamp scenario_sent = Some 1000 \<and> opened scenario_sent \<and>
   updateKeepalive (1000 + 2000) scenario_sent = (scenario_sent, None)"
  by (simp add: scenario_sent_eq updateKeepalive_def)

text \<open>
  C1, amended. On an open session whose last update \<open>b\<close> was recorded at time \<open>T\<close> and
  has the frame \<open>m\<close>: a keepalive tick at a time up to and including \<open>T + 2000 ms\<close>
  changes nothing and transmits nothing; a tick later than \<open>T + 2000 ms\<close> writes \<open>m\<close>,
  byte for byte, to the socket (and prints it) and changes nothing else; and over any
  run of ticks with no update in between, the socket receives one copy of \<open>m\<close> for each
  tick later than \<open>T + 2000 ms\<close> and nothing for the others. When no update was ever
  recorded, a tick changes nothing.
\<close>

theorem keepalive_timing:
  "(opened s \<and> socket s = Some sock \<and> lastUpdate s = Some b \<and> lastUpdateTimestamp s = Some T
      \<and> build_message b = Inr m \<longrightarrow>
      (now - T \<le> 2000 \<longrightarrow> updateKeepalive now s = (s, None)) \<and>
      (2000 < now - T \<longrightarrow>
         updateKeepalive now s =
           (s\<lparr>console := console s @ [Frame m],
              socket := Some (sock\<lparr>written := written sock @ [m]\<rparr>)\<rparr>, None)) \<and>
      keepalive_ticks nows s =
        (s\<lparr>console := console s
              @ replicate (length (filter (\<lambda>now. 2000 < now - T) nows)) (Frame m),
           socket := Some (sock\<lparr>written := written sock
              @ replicate (length (filter (\<lambda>now. 2000 < now - T) nows)) m\<rparr>)\<rparr>, None)) \<and>
   (lastUpdate s = None \<longrightarrow> updateKeepalive now s = (s, None))"
  by (simp add: keepalive_fresh keepalive_stale keepalive_absent keepalive_ticks_run)

theorem keepalive_timing_witness:
  "opened scenario_sent \<and> lastUpdate scenario_sent = Some [scenario_light] \<and>
   lastUpdateTimestamp scenario_sent = Some 1000 \<and>
   build_message [scenario_light] = Inr scenario_frame \<and>
   updateKeepalive 2999 scenario_sent = (scenario_sent, None) \<and>
   map_option written (socket (fst (updateKeepalive 3001 scenario_sent)))
     = Some [scenario_frame, scenario_frame] \<and>
   map_option written (socket (fst (keepalive_ticks [2000, 3000, 4000, 5000] scenario_sent)))
     = Some [scenario_frame, scenario_frame, scenario_frame] \<and>
   lastUpdate scenario_connected = None \<and>
   updateKeepalive 5000 scenario_connected = (scenario_connected, None)"
proof -
  have h: "opened scenario_sent"
    "socket scenario_sent = Some \<lparr>written = [scenario_frame], end_calls = 0, once_connect = False\<rparr>"
    "lastUpdate scenario_sent = Some [scenario_light]"
    "lastUpdateTimestamp scenario_sent = Some 1000"
    by (simp_all add: scenario_sent_eq)
  have n: "lastUpdate scenario_connected = None" by (simp add: scenario_connected_eq)
  show ?thesis
    using h n scenario_frame_eq
      keepalive_timing [of scenario_sent
        "\<lparr>written = [scenario_frame], end_calls = 0, once_connect = False\<rparr>"
        "[scenario_light]" 1000 scenario_frame 2999 "[2000, 3000, 4000, 5000]"]
      keepalive_timing [of scenario_sent
        "\<lparr>written = [scenario_frame], end_calls = 0, once_connect = False\<rparr>"
        "[scenario_light]" 1000 scenario_frame 3001 "[]"]
      keepalive_timing [of scenario_connected _ _ _ _ 5000]
    by (simp add: numeral_eq_Suc)
qed

text \<open>
  C2. Starting with the flag at admit, of \<open>K\<close> successive decisions of the throttle
  exactly \<open>(K + 1) div 2\<close>, which is the ceiling of \<open>K / 2\<close>, are to transmit, and they
  are the decisions at the odd positions counted from 1. The same holds for the
  datagrams handed to the socket by successive calls of \<open>sendUpdate\<close> on an open
  session (with batches in range). A suppressed call changes nothing but the flag,
  which it sets back to admit, and transmits nothing.
\<close>

theorem throttle_decimation:
  "(\<not> skip s \<longrightarrow>
      length (admits K s) = K \<and>
      (\<forall>i<K. admits K s ! i = odd (i + 1)) \<and>
      length (filter (\<lambda>b. b) (admits K s)) = (K + 1) div 2) \<and>
   (\<not> skip s \<and> opened s \<and> socket s \<noteq> None \<and> list_all (\<lambda>call. valid_batch (fst call)) calls \<longrightarrow>
      length (transmissions calls s) = length calls \<and>
      (\<forall>i<length calls. transmissions calls s ! i = odd (i + 1)) \<and>
      length (filter (\<lambda>b. b) (transmissions calls s)) = (length calls + 1) div 2) \<and>
   (socket s \<noteq> None \<and> opened s \<and> skip s \<longrightarrow>
      admit s = (False, s\<lparr>skip := False\<rparr>) \<and>
      sendUpdate updates now s = (s\<lparr>skip := False\<rparr>, None))"
proof (intro conjI impI)
  assume "\<not> skip s"
  then have a: "admits K s = map even [0..<K]" by (simp add: admits_general)
  show "length (admits K s) = K" by (simp add: a)
  show "\<forall>i<K. admits K s ! i = odd (i + 1)" by (simp add: a)
  show "length (filter (\<lambda>b. b) (admits K s)) = (K + 1) div 2"
    unfolding a by (rule count_even_upt)
next
  assume "\<not> skip s \<and> opened s \<and> socket s \<noteq> None
    \<and> list_all (\<lambda>call. valid_batch (fst call)) calls"
  then have a: "transmissions calls s = map even [0..<length calls]"
    by (simp add: transmissions_general)
  show "length (transmissions calls s) = length calls" by (simp add: a)
  show "\<forall>i<length calls. transmissions calls s ! i = odd (i + 1)" by (simp add: a)
  show "length (filter (\<lambda>b. b) (transmissions calls s)) = (length calls + 1) div 2"
    unfolding a by (rule count_even_upt)
next
  assume "socket s \<noteq> None \<and> opened s \<and> skip s"
  then show "admit s = (False, s\<lparr>skip := False\<rparr>)"
    and "sendUpdate updates now s = (s\<lparr>skip := False\<rparr>, None)"
    by (simp_all add: sendUpdate_suppressed admit_def)
qed

theorem throttle_decimation_witness:
  "\<not> skip scenario_connected \<and> opened scenario_connected \<and> socket scenario_connected \<noteq> None \<and>
   list_all (\<lambda>call. valid_batch (fst call))
     [([scenario_light], 1000), ([], 1040), ([scenario_light], 1080)] \<and>
   length (admits 5 scenario_connected) = 5 \<and>
   admits 5 scenario_connected ! 0 \<and> \<not> admits 5 scenario_connected ! 1 \<and>
   admits 5 scenario_connected ! 2 \<and> \<not> admits 5 scenario_connected ! 3 \<and>
   admits 5 scenario_connected ! 4 \<and>
   length (filter (\<lambda>b. b) (admits 5 scenario_connected)) = 3 \<and>
   transmissions [([scenario_light], 1000), ([], 1040), ([scenario_light], 1080)]
     scenario_connected = [True, False, True] \<and>
   socket scenario_sent \<noteq> None \<and> opened scenario_sent \<and> skip scenario_sent \<and>
   sendUpdate [] 1040 scenario_sent = (scenario_sent\<lparr>skip := False\<rparr>, None)"
proof -
  let ?calls = "[([scenario_light], 1000::int), ([], 1040), ([scenario_light], 1080)]"
  have c: "\<not> skip scenario_connected"
    and c': "\<not> skip scenario_connected \<and> opened scenario_connected
      \<and> socket scenario_connected \<noteq> None \<and> list_all (\<lambda>call. valid_batch (fst call)) ?calls"
    using scenario_light_valid by (simp_all add: scenario_connected_eq valid_batch_def)
  have t: "socket scenario_sent \<noteq> None \<and> opened scenario_sent \<and> skip scenario_sent"
    by (simp add: scenario_sent_eq)
  from c throttle_decimation [of scenario_connected 5]
  have d: "length (admits 5 scenario_connected) = 5"
    "\<forall>i<5. admits 5 scenario_connected ! i = odd (i + 1)"
    "length (filter (\<lambda>b. b) (admits 5 scenario_connected)) = (5 + 1) div 2"
    by blast+
  from d(2) have e: "admits 5 scenario_connected ! 0" "\<not> admits 5 scenario_connected ! 1"
    "admits 5 scenario_connected ! 2" "\<not> admits 5 scenario_connected ! 3"
    "admits 5 scenario_connected ! 4"
    by simp_all
  from c' throttle_decimation [of scenario_connected 0 ?calls]
  have f: "length (transmissions ?calls scenario_connected) = length ?calls"
    "\<forall>i<length ?calls. transmissions ?calls scenario_connected ! i = odd (i + 1)"
    by blast+
  have g: "transmissions ?calls scenario_connected = [True, False, True]"
  proof (rule nth_equalityI)
    show "length (transmissions ?calls scenario_connected) = length [True, False, True]"
      using f(1) by simp
  next
    fix i assume "i < length (transmissions ?calls scenario_connected)"
    then have i: "i < length ?calls" using f(1) by simp
    then have "i = 0 \<or> i = 1 \<or> i = 2" by auto
    with f(2) i show "transmissions ?calls scenario_connected ! i = [True, False, True] ! i"
      by auto
  qed
  from t throttle_decimation [of scenario_sent 0 "[]" "[]" 1040]
  have h: "sendUpdate [] 1040 scenario_sent = (scenario_sent\<lparr>skip := False\<rparr>, None)"
    by blast
  show ?thesis
    using c' t d(1,3) e g h by simp
qed

text \<open>
  In every state, \<open>close\<close> and its completion leave the interval registered with
  the event loop and the stored handle as they were: the source keeps the handle in
  \<open>updateKeepaliveTimeout\<close> but has no call of \<open>clearInterval\<close>.
\<close>

lemma close_leaves_intervals:
  "intervals (close s) = intervals s \<and>
   updateKeepaliveTimeout (close s) = updateKeepaliveTimeout s \<and>
   intervals (close_resume (close s)) = intervals s \<and>
   updateKeepaliveTimeout (close_resume (close s)) = updateKeepaliveTimeout s"
  by (simp add: close_def close_resume_fields split: option.splits)

text \<open>
  C5. The specification requires that closing the session stops the keepalive
  scheduler, so that no keepalive activity occurs after \<open>close\<close> has completed. The
  source does not do so: it stores the handle of the interval when it connects, in
  order to cancel it, and never cancels it. In the concrete session, after \<open>close\<close> has
  completed (the session is not opened, the \<open>close\<close> event has been emitted, no call
  is suspended), the interval registered by \<open>connect\<close> is still registered and its
  handle still stored, and its tick at time 5000 runs \<open>updateKeepalive\<close>, which builds
  the frame of the last update again and prints it; only the write to the socket is
  left out.
\<close>

theorem close_timer_still_ticks:
  "\<not> opened scenario_closed \<and> emitted scenario_closed = [''connected'', ''close''] \<and>
   pending_close scenario_closed = 0 \<and>
   updateKeepaliveTimeout scenario_closed = Some 0 \<and> intervals scenario_closed = 1 \<and>
   timer_tick 5000 scenario_closed =
     (scenario_closed\<lparr>console := [Frame scenario_frame, Frame scenario_frame]\<rparr>, None)"
  by (simp add: scenario_closed_eq timer_tick_def updateKeepalive_def sendUpdatePacket_def
      scenario_frame_eq)

text \<open>
  C6. On an opened session, two calls of \<open>close\<close> in succession emit the \<open>close\<close> event
  exactly once: none before the suspended call resumes, one when it resumes, and no
  further call is left suspended; the same when the second call comes after the first
  has completed. On a controller that is not opened, whether it was never connected or
  is already closed, \<open>close\<close> changes nothing and emits nothing.
\<close>

theorem close_emits_once:
  "(opened s \<and> socket s \<noteq> None \<longrightarrow>
      emitted (close (close s)) = emitted s \<and>
      emitted (close_resume (close (close s))) = emitted s @ [''close''] \<and>
      pending_close (close_resume (close (close s))) = pending_close s \<and>
      emitted (close (close_resume (close s))) = emitted s @ [''close''] \<and>
      pending_close (close (close_resume (close s))) = pending_close s) \<and>
   (\<not> opened s \<longrightarrow> close s = s) \<and>
   close (new_controller h u k) = new_controller h u k \<and>
   close (close s) = close s"
  by (auto simp: close_def close_resume_def new_controller_def split: option.splits)

theorem close_emits_once_witness:
  "opened scenario_sent \<and> socket scenario_sent \<noteq> None \<and>
   emitted scenario_sent = [''connected''] \<and>
   emitted (close_resume (close (close scenario_sent))) = [''connected'', ''close''] \<and>
   pending_close (close_resume (close (close scenario_sent))) = 0 \<and>
   \<not> opened scenario_new \<and> close scenario_new = scenario_new \<and>
   \<not> opened scenario_closed \<and> close scenario_closed = scenario_closed"
proof -
  have a: "opened scenario_sent \<and> socket scenario_sent \<noteq> None"
    and a': "emitted scenario_sent = [''connected'']" "pending_close scenario_sent = 0"
    by (simp_all add: scenario_sent_eq)
  have b: "\<not> opened scenario_new" "\<not> opened scenario_closed"
    by (simp_all add: scenario_new_def new_controller_def scenario_closed_eq)
  from a close_emits_once [of scenario_sent]
  have c: "emitted (close_resume (close (close scenario_sent))) = emitted scenario_sent @ [''close'']"
    "pending_close (close_resume (close (close scenario_sent))) = pending_close scenario_sent"
    by blast+
  from b close_emits_once [of scenario_new] close_emits_once [of scenario_closed]
  have d: "close scenario_new = scenario_new" "close scenario_closed = scenario_closed"
    by blast+
  show ?thesis
    using a a' b d by (simp add: c)
qed

text \<open>
  C7. In every state in which the controller has no socket or is not opened (never
  connected, or closed), a call of \<open>sendUpdate\<close> returns with the state unchanged, so
  nothing is written to the socket, and a keepalive tick leaves the socket, and with
  it the datagrams written to it, unchanged.
\<close>

theorem no_transmission_when_not_connected:
  "socket s = None \<or> \<not> opened s \<Longrightarrow>
   sendUpdate updates now s = (s, None) \<and>
   socket (fst (updateKeepalive now s)) = socket s \<and>
   socket (fst (timer_tick now s)) = socket s"
proof -
  assume a: "socket s = None \<or> \<not> opened s"
  have k: "socket (fst (updateKeepalive now s)) = socket s"
    using a
    by (auto simp: updateKeepalive_def sendUpdatePacket_closed sendUpdatePacket_no_socket
        split: option.splits)
  then show ?thesis using a by (simp add: sendUpdate_def timer_tick_def)
qed

theorem no_transmission_when_not_connected_witness:
  "(socket scenario_closed = None \<or> \<not> opened scenario_closed) \<and>
   sendUpdate [scenario_light] 9000 scenario_closed = (scenario_closed, None) \<and>
   map_option written (socket (fst (updateKeepalive 9000 scenario_closed)))
     = Some [scenario_frame] \<and>
   (socket scenario_new = None \<or> \<not> opened scenario_new) \<and>
   sendUpdate [scenario_light] 9000 scenario_new = (scenario_new, None)"
proof -
  have a: "socket scenario_closed = None \<or> \<not> opened scenario_closed"
    and b: "socket scenario_new = None \<or> \<not> opened scenario_new"
    by (simp_all add: scenario_closed_eq scenario_new_def new_controller_def)
  show ?thesis
    using a b no_transmission_when_not_connected [OF a, of "[scenario_light]" 9000]
      no_transmission_when_not_connected [OF b, of "[scenario_light]" 9000]
    by (simp add: scenario_closed_eq)
qed

text \<open>
  C8. A call of \<open>sendUpdate\<close> that passes the throttle on an open session overwrites
  the last update with its batch and the last timestamp with the current time; a call
  that does not (not connected, or suppressed) leaves both as they were. A keepalive
  tick, whether it retransmits or not, leaves the last update, its timestamp and the
  throttle's flag unchanged.
\<close>

theorem last_update_framing:
  "(socket s \<noteq> None \<and> opened s \<and> \<not> skip s \<longrightarrow>
      lastUpdate (fst (sendUpdate updates now s)) = Some updates \<and>
      lastUpdateTimestamp (fst (sendUpdate updates now s)) = Some now) \<and>
   (socket s = None \<or> \<not> opened s \<or> skip s \<longrightarrow>
      lastUpdate (fst (sendUpdate updates now s)) = lastUpdate s \<and>
      lastUpdateTimestamp (fst (sendUpdate updates now s)) = lastUpdateTimestamp s) \<and>
   lastUpdate (fst (updateKeepalive now s)) = lastUpdate s \<and>
   lastUpdateTimestamp (fst (updateKeepalive now s)) = lastUpdateTimestamp s \<and>
   skip (fst (updateKeepalive now s)) = skip s"
  by (auto simp: sendUpdate_def admit_def sendUpdatePacket_frame updateKeepalive_frame)

theorem last_update_framing_witness:
  "socket scenario_connected \<noteq> None \<and> opened scenario_connected \<and> \<not> skip scenario_connected \<and>
   lastUpdate (fst (sendUpdate [scenario_light] 1000 scenario_connected)) = Some [scenario_light] \<and>
   lastUpdateTimestamp (fst (sendUpdate [scenario_light] 1000 scenario_connected)) = Some 1000 \<and>
   skip scenario_sent \<and>
   lastUpdateTimestamp (fst (sendUpdate [] 1040 scenario_sent)) = Some 1000 \<and>
   map_option written (socket (fst (updateKeepalive 5000 scenario_sent)))
     = Some [scenario_frame, scenario_frame] \<and>
   lastUpdate (fst (updateKeepalive 5000 scenario_sent)) = Some [scenario_light] \<and>
   lastUpdateTimestamp (fst (updateKeepalive 5000 scenario_sent)) = Some 1000 \<and>
   skip (fst (updateKeepalive 5000 scenario_sent))"
proof -
  have a: "socket scenario_connected \<noteq> None \<and> opened scenario_connected \<and> \<not> skip scenario_connected"
    by (simp add: scenario_connected_eq)
  have b: "skip scenario_sent" "lastUpdate scenario_sent = Some [scenario_light]"
    "lastUpdateTimestamp scenario_sent = Some 1000"
    by (simp_all add: scenario_sent_eq)
  have c: "map_option written (socket (fst (updateKeepalive 5000 scenario_sent)))
     = Some [scenario_frame, scenario_frame]"
    by (simp add: scenario_sent_eq updateKeepalive_def sendUpdatePacket_def scenario_frame_eq
        socket_write_def)
  show ?thesis
    using a b c last_update_framing [of scenario_connected "[scenario_light]" 1000]
      last_update_framing [of scenario_sent "[]" 1040]
      last_update_framing [of scenario_sent _ 5000]
    by simp
qed

end
